theory Spec2Isabelle
  imports Complex_Main "HOL-Library.Word" "HOL-Library.AList"
begin

section \<open>Shared data model\<close>

text \<open>
  The module \<^verbatim>\<open>nrds_utils/fetch.py\<close> works on NumPy arrays. An array is modelled by
  its shape and its elements in row-major (C) order, the layout NumPy gives to every
  array the module creates. The element type is a parameter: \<open>int\<close> for a decoded
  raster (any integer dtype), \<open>8 word\<close> for \<^verbatim>\<open>uint8\<close>, \<open>real\<close> for \<^verbatim>\<open>float64\<close>
  and \<open>bool\<close> for a mask.
\<close>

record 'a ndarray =
  shape :: "nat list"
  flat :: "'a list"

definition wf_array :: "'a ndarray \<Rightarrow> bool" where
  "wf_array a \<longleftrightarrow> length (flat a) = prod_list (shape a)"

text \<open>
  Exceptions are values. \<open>IndexError\<close>, \<open>KeyError\<close> and \<open>ValueError\<close> are the ones
  NumPy and the dictionary lookup raise inside the module; \<open>TransportFailure\<close> and
  \<open>DecodeFailure\<close> stand for whatever \<^verbatim>\<open>requests.get\<close> and \<^verbatim>\<open>imread\<close> raise;
  \<open>TypeError\<close> is what a call raises that gives a parameter two values; the store
  model also uses it for an address that holds no integer array.
\<close>

datatype exn =
    IndexError
  | KeyError
  | ValueError
  | TypeError
  | TransportFailure string
  | DecodeFailure string

section \<open>The class remap of \<^verbatim>\<open>nlcd_from_mrlc\<close> (lines 108 to 136)\<close>

text \<open>The dictionary literal \<^verbatim>\<open>REMAP\<close>, in insertion order.\<close>

definition REMAP :: "(int \<times> int) list" where
  "REMAP =
    [(1, 1), (2, 1), (3, 5), (4, 5), (5, 5), (6, 5), (7, 4), (8, 4),
     (9, 2), (10, 2), (11, 2), (12, 3), (13, 3), (14, 3), (15, 3),
     (16, 3), (17, 3), (18, 3), (19, 3), (20, 2), (21, 3)]"

text \<open>
  \<^verbatim>\<open>k = np.array(list(REMAP.keys()), dtype=np.uint8)\<close> and the same for the values.
\<close>

definition k_arr :: "8 word list" where
  "k_arr = map (\<lambda>kv. word_of_int (fst kv)) REMAP"

definition v_arr :: "8 word list" where
  "v_arr = map (\<lambda>kv. word_of_int (snd kv)) REMAP"

text \<open>\<^verbatim>\<open>k.max()\<close>; the array is not empty here.\<close>

definition np_max :: "8 word list \<Rightarrow> 8 word" where
  "np_max xs = fold max (tl xs) (hd xs)"

text \<open>
  \<^verbatim>\<open>mapping_ar = np.zeros(k.max() + 1, dtype=np.uint8); mapping_ar[k] = v\<close>.
  The size is \<open>21 + 1\<close>, below 256 whichever integer type the sum is taken in.
  The assignment stores \<open>v[j]\<close> at index \<open>k[j]\<close> for each \<open>j\<close> in turn; every index is
  below the size (lemma \<open>k_arr_in_range\<close>), so no store is out of range.
\<close>

definition mapping_ar :: "8 word list" where
  "mapping_ar =
     fold (\<lambda>kv ar. ar[unat (fst kv) := snd kv]) (zip k_arr v_arr)
       (replicate (unat (np_max k_arr) + 1) 0)"

text \<open>
  Reading one element of a one-dimensional array with an integer index, as NumPy does:
  a negative index counts from the end, and an index outside \<open>[-n, n)\<close> raises
  \<^verbatim>\<open>IndexError\<close>.
\<close>

definition np_index :: "'a list \<Rightarrow> int \<Rightarrow> exn + 'a" where
  "np_index ar i =
     (let n = int (length ar);
          j = (if i < 0 then i + n else i)
      in if 0 \<le> j \<and> j < n then Inr (ar ! nat j) else Inl IndexError)"

text \<open>
  \<^verbatim>\<open>ar[idx]\<close> for an integer index array: every element of \<open>idx\<close> is looked up, the
  result has the shape of \<open>idx\<close>, and one bad index fails the whole expression.
\<close>

fun take_all :: "'a list \<Rightarrow> int list \<Rightarrow> exn + 'a list" where
  "take_all ar [] = Inr []"
| "take_all ar (i # rest) =
     (case np_index ar i of
        Inl e \<Rightarrow> Inl e
      | Inr x \<Rightarrow> (case take_all ar rest of Inl e \<Rightarrow> Inl e | Inr xs \<Rightarrow> Inr (x # xs)))"

definition nlcd_remap :: "int ndarray \<Rightarrow> exn + 8 word ndarray" where
  "nlcd_remap img =
     (case take_all mapping_ar (flat img) of
        Inl e \<Rightarrow> Inl e
      | Inr xs \<Rightarrow> Inr \<lparr>shape = shape img, flat = xs\<rparr>)"

text \<open>
  The table of section 4.2 of the specification, written from its words: water and ice
  \<open>{1,2}\<close> to 1, developed \<open>{3,4,5,6}\<close> to 5, barren and shore \<open>{7,8}\<close> to 4, forest
  \<open>{9,10,11,20}\<close> to 2, scrub, grass and crops \<open>{12,..,19,21}\<close> to 3, anything else to 0.
\<close>

definition spec_table :: "int \<Rightarrow> int" where
  "spec_table c =
     (if c \<in> {1, 2} then 1
      else if c \<in> {3, 4, 5, 6} then 5
      else if c \<in> {7, 8} then 4
      else if c \<in> {9, 10, 11, 20} then 2
      else if c \<in> {12, 13, 14, 15, 16, 17, 18, 19, 21} then 3
      else 0)"

section \<open>Request parameters and the outside world\<close>

text \<open>
  A request parameter is \<^verbatim>\<open>None\<close>, an integer or a string. The parameter dictionary
  keeps insertion order; \<^verbatim>\<open>params.update({key: value})\<close> replaces the value of a key
  that is present, in place, and appends a key that is not.
\<close>

datatype pyval = PNone | PInt int | PStr string

type_synonym params = "(string \<times> pyval) list"

definition dict_update :: "string \<Rightarrow> pyval \<Rightarrow> params \<Rightarrow> params" where
  "dict_update key val ps = AList.update key val ps"

text \<open>
  \<^verbatim>\<open>for key, value in kwargs.items(): params.update({key: value})\<close>, with \<open>kwargs\<close>
  given as its items in order.
\<close>

definition merge_kwargs :: "params \<Rightarrow> params \<Rightarrow> params" where
  "merge_kwargs ps kwargs = fold (\<lambda>kv acc. dict_update (fst kv) (snd kv) acc) kwargs ps"

text \<open>\<^verbatim>\<open>sep.join(parts)\<close>.\<close>

fun join :: "string \<Rightarrow> string list \<Rightarrow> string" where
  "join sep [] = []"
| "join sep [x] = x"
| "join sep (x # y # rest) = x @ sep @ join sep (y # rest)"

text \<open>The decimal text of an integer, as an f-string prints it.\<close>

fun digits :: "nat \<Rightarrow> string" where
  "digits n =
     (if n < 10 then [char_of (48 + n)]
      else digits (n div 10) @ [char_of (48 + n mod 10)])"

declare digits.simps [simp del]

definition str_int :: "int \<Rightarrow> string" where
  "str_int i = (if i < 0 then CHR ''-'' # digits (nat (- i)) else digits (nat i))"

text \<open>
  What the module takes from outside: Python's \<^verbatim>\<open>str\<close> on a bounding-box coordinate,
  \<^verbatim>\<open>requests.get\<close> and \<^verbatim>\<open>imread\<close>. The network is not a function of the request,
  so \<open>requests_get\<close> also takes the number of requests the call has issued before;
  it yields the response body or the exception raised. \<open>imread\<close> takes the body and the
  \<^verbatim>\<open>format\<close> argument and yields the decoded raster or the exception raised.
\<close>

record 'c env =
  py_str :: "'c \<Rightarrow> string"
  requests_get :: "nat \<Rightarrow> string \<Rightarrow> params \<Rightarrow> exn + string"
  imread :: "string \<Rightarrow> string option \<Rightarrow> exn + int ndarray"

text \<open>
  A request is the URL and the parameter dictionary handed to \<^verbatim>\<open>requests.get\<close>. Each
  fetcher is modelled with the list of requests it issued, oldest first, next to what it
  returns or raises.
\<close>

type_synonym request = "string \<times> params"

text \<open>
  One attempt is a request followed by a decode. It fails when either raises.
\<close>

definition attempt_fails :: "'c env \<Rightarrow> string \<Rightarrow> params \<Rightarrow> string option \<Rightarrow> nat \<Rightarrow> bool" where
  "attempt_fails env url ps fmt n =
     (case requests_get env n url ps of
        Inl e \<Rightarrow> True
      | Inr content \<Rightarrow> (case imread env content fmt of Inl e \<Rightarrow> True | Inr a \<Rightarrow> False))"

text \<open>
  Three environments for examples: one whose every request raises, one whose every
  response is a body the decoder rejects, and one that answers every request with a body
  the decoder turns into a given raster.
\<close>

definition env_down :: "int env" where
  "env_down =
     \<lparr>py_str = str_int,
      requests_get = (\<lambda>n url ps. Inl (TransportFailure ''connection refused'')),
      imread = (\<lambda>content fmt. Inl (DecodeFailure ''not an image''))\<rparr>"

definition env_garbled :: "int env" where
  "env_garbled =
     \<lparr>py_str = str_int,
      requests_get = (\<lambda>n url ps. Inr ''<html>error</html>''),
      imread = (\<lambda>content fmt. Inl (DecodeFailure ''not an image''))\<rparr>"

definition env_serving :: "int ndarray \<Rightarrow> int env" where
  "env_serving img =
     \<lparr>py_str = str_int,
      requests_get = (\<lambda>n url ps. Inr ''II*''),
      imread = (\<lambda>content fmt. Inr img)\<rparr>"

section \<open>\<^verbatim>\<open>naip2016_from_orgeo\<close>\<close>

definition NAIP_BASE_URL :: string where
  "NAIP_BASE_URL =
     ''https://imagery.oregonexplorer.info/arcgis/rest/services/'' @
     ''NAIP_2016/NAIP_2016_SL/ImageServer/exportImage?''"

definition naip_params :: "'c env \<Rightarrow> 'c list \<Rightarrow> int \<Rightarrow> int \<Rightarrow> int \<Rightarrow> params \<Rightarrow> params" where
  "naip_params env bbox width height epsg kwargs =
     merge_kwargs
       [(''bbox'', PStr (join '','' (map (py_str env) bbox))),
        (''bboxSR'', PInt epsg),
        (''size'', PStr (str_int width @ '','' @ str_int height)),
        (''imageSR'', PInt epsg),
        (''format'', PStr ''tiff''),
        (''pixelType'', PStr ''U8''),
        (''noData'', PNone),
        (''noDataInterpretation'', PStr ''esriNoDataMatchAny''),
        (''interpolation'', PStr ''+RSP_BilinearInterpolation''),
        (''compression'', PNone),
        (''compressionQuality'', PNone),
        (''bandIds'', PNone),
        (''mosaicRule'', PNone),
        (''renderingRule'', PNone),
        (''f'', PStr ''image'')]
       kwargs"

text \<open>
  The retry loop, lines 49 to 57. The state is \<open>retries\<close>, \<open>img\<close> and the requests
  issued so far. The bare \<^verbatim>\<open>except\<close> catches whatever the request or the decoder
  raises and only decrements \<open>retries\<close>.
\<close>

function retry_loop ::
  "'c env \<Rightarrow> params \<Rightarrow> int \<Rightarrow> int ndarray option \<Rightarrow> request list
     \<Rightarrow> int ndarray option \<times> request list" where
  "retry_loop env ps retries img issued =
     (if 0 < retries \<and> img = None then
        (case requests_get env (length issued) NAIP_BASE_URL ps of
           Inl e \<Rightarrow> retry_loop env ps (retries - 1) img (issued @ [(NAIP_BASE_URL, ps)])
         | Inr content \<Rightarrow>
             (case imread env content None of
                Inl e \<Rightarrow> retry_loop env ps (retries - 1) img (issued @ [(NAIP_BASE_URL, ps)])
              | Inr a \<Rightarrow> retry_loop env ps retries (Some a) (issued @ [(NAIP_BASE_URL, ps)])))
      else (img, issued))"
  by pat_completeness auto
termination
  by (relation "measure (\<lambda>(env, ps, retries, img, issued).
        2 * nat retries + (if img = None then 1 else 0))") auto

declare retry_loop.simps [simp del]

text \<open>
  The body of the function, run on bound arguments: \<open>kwargs\<close> is the dictionary Python
  hands to the body, the keyword arguments that name no formal parameter. The result is
  what the body returns or raises, paired with the requests it issued.
  \<^verbatim>\<open>return\<close> without a value returns \<^verbatim>\<open>None\<close>, and so does the other branch when
  \<open>img\<close> is \<^verbatim>\<open>None\<close>. The defaults of the source are \<open>epsg = 5070\<close> and
  \<open>num_retries = 3\<close>.
\<close>

definition naip2016_from_orgeo ::
  "'c env \<Rightarrow> 'c list \<Rightarrow> int \<Rightarrow> int \<Rightarrow> int \<Rightarrow> int \<Rightarrow> params
     \<Rightarrow> (exn + int ndarray option) \<times> request list" where
  "naip2016_from_orgeo env bbox width height epsg num_retries kwargs =
     (let ps = naip_params env bbox width height epsg kwargs;
          (img, issued) = retry_loop env ps num_retries None []
      in if img = None then (Inr None, issued) else (Inr img, issued))"

text \<open>
  A call. Python binds the arguments before the body runs. The call modelled here gives
  every formal parameter a value and passes \<open>extras\<close> as further keyword arguments. An
  extra keyword that names a formal parameter would give that parameter a second value:
  the call raises \<^verbatim>\<open>TypeError\<close> and the body never starts, so no request is issued.
  Otherwise the extras are the \<open>kwargs\<close> of the body.
\<close>

definition binds :: "string list \<Rightarrow> params \<Rightarrow> bool" where
  "binds formals extras = list_all (\<lambda>kv. fst kv \<notin> set formals) extras"

definition NAIP_FORMALS :: "string list" where
  "NAIP_FORMALS = [''bbox'', ''width'', ''height'', ''epsg'', ''num_retries'']"

definition call_naip2016_from_orgeo ::
  "'c env \<Rightarrow> 'c list \<Rightarrow> int \<Rightarrow> int \<Rightarrow> int \<Rightarrow> int \<Rightarrow> params
     \<Rightarrow> (exn + int ndarray option) \<times> request list" where
  "call_naip2016_from_orgeo env bbox width height epsg num_retries extras =
     (if binds NAIP_FORMALS extras
      then naip2016_from_orgeo env bbox width height epsg num_retries extras
      else (Inl TypeError, []))"

section \<open>\<^verbatim>\<open>nlcd_from_mrlc\<close>\<close>

definition NLCD_BASE_URL :: string where
  "NLCD_BASE_URL =
     ''https://www.mrlc.gov/geoserver/mrlc_display/NLCD_2016_Land_Cover_L48/'' @
     ''wms?service=WMS&request=GetMap''"

definition nlcd_params ::
  "'c env \<Rightarrow> 'c list \<Rightarrow> int \<Rightarrow> int \<Rightarrow> string \<Rightarrow> int \<Rightarrow> params \<Rightarrow> params" where
  "nlcd_params env bbox width height layer epsg kwargs =
     merge_kwargs
       [(''bbox'', PStr (join '','' (map (py_str env) bbox))),
        (''crs'', PStr (''epsg:'' @ str_int epsg)),
        (''width'', PInt width),
        (''height'', PInt height),
        (''format'', PStr ''image/geotiff''),
        (''layers'', PStr layer)]
       kwargs"

text \<open>
  The body of the function, run on bound arguments as above: one request, one decode,
  then the remap; nothing is caught. The defaults of the source are
  \<open>layer = NLCD_2016_Land_Cover_L48\<close> and \<open>epsg = 5070\<close>.
\<close>

definition nlcd_from_mrlc ::
  "'c env \<Rightarrow> 'c list \<Rightarrow> int \<Rightarrow> int \<Rightarrow> string \<Rightarrow> int \<Rightarrow> params
     \<Rightarrow> (exn + 8 word ndarray option) \<times> request list" where
  "nlcd_from_mrlc env bbox width height layer epsg kwargs =
     (let ps = nlcd_params env bbox width height layer epsg kwargs;
          issued = [(NLCD_BASE_URL, ps)]
      in case requests_get env 0 NLCD_BASE_URL ps of
           Inl e \<Rightarrow> (Inl e, issued)
         | Inr content \<Rightarrow>
             (case imread env content (Some ''tiff'') of
                Inl e \<Rightarrow> (Inl e, issued)
              | Inr img \<Rightarrow>
                  (case nlcd_remap img of
                     Inl e \<Rightarrow> (Inl e, issued)
                   | Inr out \<Rightarrow> (Inr (Some out), issued))))"

text \<open>A call of \<^verbatim>\<open>nlcd_from_mrlc\<close>, with the binding of its arguments.\<close>

definition NLCD_FORMALS :: "string list" where
  "NLCD_FORMALS = [''bbox'', ''width'', ''height'', ''layer'', ''epsg'']"

definition call_nlcd_from_mrlc ::
  "'c env \<Rightarrow> 'c list \<Rightarrow> int \<Rightarrow> int \<Rightarrow> string \<Rightarrow> int \<Rightarrow> params
     \<Rightarrow> (exn + 8 word ndarray option) \<times> request list" where
  "call_nlcd_from_mrlc env bbox width height layer epsg extras =
     (if binds NLCD_FORMALS extras
      then nlcd_from_mrlc env bbox width height layer epsg extras
      else (Inl TypeError, []))"

section \<open>\<^verbatim>\<open>colorize_landcover\<close>\<close>

text \<open>
  The palette \<^verbatim>\<open>COLOR_MAP\<close>. Its components are \<^verbatim>\<open>float64\<close> values; each of them
  (0, 0.375, 0.5, 1) and each product with 255 (0, 95.625, 127.5, 255) is a binary
  fraction with a handful of bits, so the floating-point product is exact and the
  components are modelled by the reals they denote.
\<close>

definition COLOR_MAP :: "(int \<times> real list) list" where
  "COLOR_MAP =
     [(0, [1, 1, 1]),
      (1, [0, 0, 1]),
      (2, [0, 1 / 2, 0]),
      (3, [1 / 2, 1, 1 / 2]),
      (4, [1 / 2, 3 / 8, 3 / 8]),
      (5, [0, 0, 0]),
      (255, [1, 0, 0])]"

text \<open>\<^verbatim>\<open>np.zeros(shape)\<close>, \<^verbatim>\<open>np.unique(img)\<close> (sorted distinct values) and \<^verbatim>\<open>img == cov\<close>.\<close>

definition np_zeros :: "nat list \<Rightarrow> real ndarray" where
  "np_zeros shp = \<lparr>shape = shp, flat = replicate (prod_list shp) 0\<rparr>"

definition np_unique :: "int ndarray \<Rightarrow> int list" where
  "np_unique img = sort (remdups (flat img))"

definition np_eq :: "int ndarray \<Rightarrow> int \<Rightarrow> bool ndarray" where
  "np_eq img cov = \<lparr>shape = shape img, flat = map (\<lambda>x. x = cov) (flat img)\<rparr>"

text \<open>
  Assignment through a boolean mask of the array's own shape: the selected elements, in
  row-major order, receive the values in turn. The second equation keeps an element
  that is not selected.
\<close>

fun assign_elems :: "bool list \<Rightarrow> 'a list \<Rightarrow> 'a list \<Rightarrow> 'a list" where
  "assign_elems (True # ms) (c # cs) (v # vs) = v # assign_elems ms cs vs"
| "assign_elems (m # ms) (c # cs) vs = c # assign_elems ms cs vs"
| "assign_elems ms cs vs = cs"

text \<open>
  Assignment through a boolean mask over the leading axes: the array is a sequence of
  blocks of \<open>k\<close> elements, one per mask entry, and every selected block receives \<open>v\<close>.
\<close>

fun assign_rows :: "nat \<Rightarrow> bool list \<Rightarrow> 'a list \<Rightarrow> 'a list \<Rightarrow> 'a list" where
  "assign_rows k [] cs v = cs"
| "assign_rows k (m # ms) cs v =
     (if m then v else take k cs) @ assign_rows k ms (drop k cs) v"

text \<open>
  \<^verbatim>\<open>a[m] = v\<close> for a boolean array \<open>m\<close> and a one-dimensional value \<open>v\<close>.
  \<^item> A mask of the array's shape selects single elements; \<open>v\<close> must have one entry
    (used for all) or as many entries as the mask selects, else \<^verbatim>\<open>ValueError\<close>.
  \<^item> A mask with more axes than the array, or one whose axes differ from the array's
    leading axes, raises \<^verbatim>\<open>IndexError\<close>.
  \<^item> Otherwise the mask selects blocks along the leading axes and \<open>v\<close> is broadcast to
    each block: it must have one entry or as many as the last axis, else \<^verbatim>\<open>ValueError\<close>.
\<close>

definition setitem_mask :: "'a ndarray \<Rightarrow> bool ndarray \<Rightarrow> 'a list \<Rightarrow> exn + 'a ndarray" where
  "setitem_mask a m v =
     (let n = length (filter id (flat m)) in
      if shape m = shape a then
        (if length v = 1 then
           Inr (a\<lparr>flat := assign_elems (flat m) (flat a) (replicate n (hd v))\<rparr>)
         else if length v = n then
           Inr (a\<lparr>flat := assign_elems (flat m) (flat a) v\<rparr>)
         else Inl ValueError)
      else if length (shape a) < length (shape m) then Inl IndexError
      else if shape m \<noteq> take (length (shape m)) (shape a) then Inl IndexError
      else
        (let rest = drop (length (shape m)) (shape a);
             k = prod_list rest
         in if length v = 1 then
              Inr (a\<lparr>flat := assign_rows k (flat m) (flat a) (replicate k (hd v))\<rparr>)
            else if length v = last rest then
              Inr (a\<lparr>flat := assign_rows k (flat m) (flat a)
                                (concat (replicate (k div length v) v))\<rparr>)
            else Inl ValueError))"

text \<open>
  The loop of lines 165 to 167 over the distinct values. The palette lookup on the right
  of the assignment is evaluated before the store, so a missing key raises
  \<^verbatim>\<open>KeyError\<close> before the mask is used as an index.
\<close>

fun colorize_loop :: "int list \<Rightarrow> int ndarray \<Rightarrow> real ndarray \<Rightarrow> exn + real ndarray" where
  "colorize_loop [] img cover_colors = Inr cover_colors"
| "colorize_loop (cov # covs) img cover_colors =
     (let mask = np_eq img cov in
      case map_of COLOR_MAP cov of
        None \<Rightarrow> Inl KeyError
      | Some col \<Rightarrow>
          (case setitem_mask cover_colors mask col of
             Inl e \<Rightarrow> Inl e
           | Inr cc \<Rightarrow> colorize_loop covs img cc))"

text \<open>
  \<^verbatim>\<open>.astype(np.uint8)\<close> on a float: the fraction is dropped (rounding towards zero) and
  the integer is stored in eight bits. The values converted here lie between 0 and 255.
\<close>

definition astype_uint8 :: "real \<Rightarrow> 8 word" where
  "astype_uint8 x = word_of_int (if x < 0 then \<lceil>x\<rceil> else \<lfloor>x\<rfloor>)"

definition scale_to_uint8 :: "real ndarray \<Rightarrow> 8 word ndarray" where
  "scale_to_uint8 a = \<lparr>shape = shape a, flat = map (\<lambda>x. astype_uint8 (x * 255)) (flat a)\<rparr>"

text \<open>
  \<^verbatim>\<open>img.shape[1]\<close> raises \<^verbatim>\<open>IndexError\<close> when the array has fewer than two axes.
\<close>

definition colorize_landcover :: "int ndarray \<Rightarrow> exn + 8 word ndarray" where
  "colorize_landcover img =
     (if length (shape img) < 2 then Inl IndexError
      else
        (let cover_colors = np_zeros [shape img ! 0, shape img ! 1, 3] in
         case colorize_loop (np_unique img) img cover_colors of
           Inl e \<Rightarrow> Inl e
         | Inr cc \<Rightarrow> Inr (scale_to_uint8 cc)))"

text \<open>A \<^verbatim>\<open>uint8\<close> raster read as integers, to pass the remapped raster to the colorizer.\<close>

definition as_int :: "8 word ndarray \<Rightarrow> int ndarray" where
  "as_int a = \<lparr>shape = shape a, flat = map uint (flat a)\<rparr>"


text \<open>The colour the specification gives a class: the palette entry times 255, truncated.\<close>

definition rgb_of :: "int \<Rightarrow> 8 word list" where
  "rgb_of c = map (\<lambda>x. astype_uint8 (x * 255)) (the (map_of COLOR_MAP c))"

section \<open>\<^verbatim>\<open>colorize_landcover\<close> on a store of arrays\<close>

text \<open>
  To speak about what the function writes, arrays live in a store and are passed by
  address. The store is a list of cells, an address is a position in it, and every
  array-creating expression (\<^verbatim>\<open>np.zeros\<close>, \<^verbatim>\<open>astype\<close>) appends a cell. The masks and the
  product \<^verbatim>\<open>cover_colors * 255\<close> are temporaries that nothing writes to after their
  creation; they stay values. Each iteration reads \<open>img\<close> from the store again, so
  a write to it would show in the next mask.
\<close>

datatype cell = IntArr "int ndarray" | FloatArr "real ndarray" | ByteArr "8 word ndarray"

type_synonym store = "cell list"

definition alloc :: "store \<Rightarrow> cell \<Rightarrow> nat \<times> store" where
  "alloc h c = (length h, h @ [c])"

definition deref :: "store \<Rightarrow> nat \<Rightarrow> cell option" where
  "deref h a = (if a < length h then Some (h ! a) else None)"

fun colorize_loop_st :: "int list \<Rightarrow> nat \<Rightarrow> nat \<Rightarrow> store \<Rightarrow> store \<times> (exn + unit)" where
  "colorize_loop_st [] a cc h = (h, Inr ())"
| "colorize_loop_st (cov # covs) a cc h =
     (case (deref h a, deref h cc) of
        (Some (IntArr img), Some (FloatArr cover_colors)) \<Rightarrow>
          (let mask = np_eq img cov in
           case map_of COLOR_MAP cov of
             None \<Rightarrow> (h, Inl KeyError)
           | Some col \<Rightarrow>
               (case setitem_mask cover_colors mask col of
                  Inl e \<Rightarrow> (h, Inl e)
                | Inr cc' \<Rightarrow> colorize_loop_st covs a cc (h[cc := FloatArr cc'])))
      | _ \<Rightarrow> (h, Inl TypeError))"

definition colorize_landcover_st :: "store \<Rightarrow> nat \<Rightarrow> store \<times> (exn + nat)" where
  "colorize_landcover_st h a =
     (case deref h a of
        Some (IntArr img) \<Rightarrow>
          (if length (shape img) < 2 then (h, Inl IndexError)
           else
             (let (cc, h1) = alloc h (FloatArr (np_zeros [shape img ! 0, shape img ! 1, 3]));
                  (h2, r) = colorize_loop_st (np_unique img) a cc h1
              in case (r, deref h2 cc) of
                   (Inr u, Some (FloatArr cover_colors)) \<Rightarrow>
                     (let (lc, h3) = alloc h2 (ByteArr (scale_to_uint8 cover_colors))
                      in (h3, Inr lc))
                 | (Inl e, _) \<Rightarrow> (h2, Inl e)
                 | _ \<Rightarrow> (h2, Inl TypeError)))
      | _ \<Rightarrow> (h, Inl TypeError))"

section \<open>Properties of the remap\<close>

lemma k_arr_in_range:
  "\<forall>i \<in> set k_arr. unat i < unat (np_max k_arr) + 1"
  by (simp add: k_arr_def np_max_def REMAP_def)

lemma mapping_ar_literal:
  "mapping_ar = [0, 1, 1, 5, 5, 5, 5, 4, 4, 2, 2, 2, 3, 3, 3, 3, 3, 3, 3, 3, 2, 3]"
  by code_simp

lemma mapping_ar_spec_table:
  "mapping_ar = map (\<lambda>n. word_of_int (spec_table (int n))) [0..<22]"
  unfolding mapping_ar_literal by code_simp

lemma length_mapping_ar: "length mapping_ar = 22"
  by (simp add: mapping_ar_literal)

lemma set_mapping_ar: "set mapping_ar = {0, 1, 2, 3, 4, 5}"
  by (auto simp: mapping_ar_literal)

lemma np_index_mapping_ar:
  assumes "0 \<le> c" and "c \<le> 21"
  shows "np_index mapping_ar c = Inr (word_of_int (spec_table c))"
proof -
  from assms have n: "nat c < 22" by simp
  have "mapping_ar ! nat c = word_of_int (spec_table (int (nat c)))"
    unfolding mapping_ar_spec_table using n by (simp del: upt_Suc)
  with assms show ?thesis
    by (simp add: np_index_def length_mapping_ar)
qed

lemma np_index_too_large: "22 \<le> c \<Longrightarrow> np_index mapping_ar c = Inl IndexError"
  by (simp add: np_index_def length_mapping_ar)

lemma np_index_error: "np_index ar i = Inl e \<Longrightarrow> e = IndexError"
  by (auto simp: np_index_def Let_def split: if_splits)

lemma np_index_member: "np_index ar i = Inr x \<Longrightarrow> x \<in> set ar"
  by (auto simp: np_index_def Let_def split: if_splits)

lemma take_all_error: "take_all ar cs = Inl e \<Longrightarrow> e = IndexError"
  by (induction cs arbitrary: e) (auto split: sum.splits dest: np_index_error)

lemma take_all_member: "take_all ar cs = Inr xs \<Longrightarrow> set xs \<subseteq> set ar"
  by (induction cs arbitrary: xs) (auto split: sum.splits dest: np_index_member)

lemma take_all_length: "take_all ar cs = Inr xs \<Longrightarrow> length xs = length cs"
  by (induction cs arbitrary: xs) (auto split: sum.splits)

lemma take_all_in_range:
  "\<forall>c \<in> set cs. 0 \<le> c \<and> c \<le> 21 \<Longrightarrow>
     take_all mapping_ar cs = Inr (map (\<lambda>c. word_of_int (spec_table c)) cs)"
  by (induction cs) (simp_all add: np_index_mapping_ar)

lemma take_all_too_large:
  "\<exists>c \<in> set cs. 22 \<le> c \<Longrightarrow> take_all mapping_ar cs = Inl IndexError"
proof (induction cs)
  case Nil
  then show ?case by simp
next
  case (Cons c cs)
  show ?case
  proof (cases "np_index mapping_ar c")
    case (Inl e)
    then show ?thesis by (simp add: np_index_error [OF Inl])
  next
    case (Inr x)
    with Cons.prems have "\<exists>c \<in> set cs. 22 \<le> c"
      by (auto simp: np_index_too_large)
    with Cons.IH Inr show ?thesis by simp
  qed
qed

text \<open>
  Claim C1, as the code has it. A raster whose codes all lie in 0 to 21 is remapped
  pixel by pixel to the target of the table of section 4.2 (1, 2 to 1; 3 to 6 to 5;
  7, 8 to 4; 9, 10, 11, 20 to 2; 12 to 19 and 21 to 3), code 0 to 0, and the shape is
  kept. A raster holding a code of 22 or more is not remapped at all: the lookup array
  has 22 entries and the indexing raises \<^verbatim>\<open>IndexError\<close>.
\<close>

theorem nlcd_remap_table:
  "((\<forall>c \<in> set (flat img). 0 \<le> c \<and> c \<le> 21) \<longrightarrow>
      nlcd_remap img =
        Inr \<lparr>shape = shape img, flat = map (\<lambda>c. word_of_int (spec_table c)) (flat img)\<rparr>) \<and>
   ((\<exists>c \<in> set (flat img). 22 \<le> c) \<longrightarrow> nlcd_remap img = Inl IndexError)"
  by (simp add: nlcd_remap_def take_all_in_range take_all_too_large)

theorem nlcd_remap_table_witness:
  "nlcd_remap \<lparr>shape = [2, 3], flat = [0, 1, 9, 21, 3, 8]\<rparr> =
     Inr \<lparr>shape = [2, 3], flat = [0, 1, 2, 3, 5, 4]\<rparr> \<and>
   nlcd_remap \<lparr>shape = [1, 2], flat = [5, 22]\<rparr> = Inl IndexError"
proof -
  have a: "\<forall>c \<in> set (flat \<lparr>shape = [2, 3], flat = [0, 1, 9, 21, 3, 8 :: int]\<rparr>). 0 \<le> c \<and> c \<le> 21"
    by simp
  have b: "\<exists>c \<in> set (flat \<lparr>shape = [1, 2], flat = [5, 22 :: int]\<rparr>). 22 \<le> c"
    by simp
  from a nlcd_remap_table [of "\<lparr>shape = [2, 3], flat = [0, 1, 9, 21, 3, 8]\<rparr>"]
  have "nlcd_remap \<lparr>shape = [2, 3], flat = [0, 1, 9, 21, 3, 8]\<rparr> =
     Inr \<lparr>shape = [2, 3], flat = [0, 1, 2, 3, 5, 4]\<rparr>"
    by (simp add: spec_table_def)
  moreover from b nlcd_remap_table [of "\<lparr>shape = [1, 2], flat = [5, 22]\<rparr>"]
  have "nlcd_remap \<lparr>shape = [1, 2], flat = [5, 22]\<rparr> = Inl IndexError"
    by blast
  ultimately show ?thesis by simp
qed

text \<open>
  The claim as the specification words it sends code 22 to 0. On the one-pixel raster
  holding 22 the remap returns no raster.
\<close>

theorem nlcd_remap_code_22_counterexample:
  "nlcd_remap \<lparr>shape = [1, 1], flat = [22]\<rparr> = Inl IndexError \<and>
   nlcd_remap \<lparr>shape = [1, 1], flat = [22]\<rparr> \<noteq> Inr \<lparr>shape = [1, 1], flat = [0]\<rparr>"
  by (simp add: nlcd_remap_def np_index_def length_mapping_ar)

text \<open>
  Claim C9. When \<^verbatim>\<open>nlcd_from_mrlc\<close> returns a raster, every pixel of it is one of
  0, 1, 2, 3, 4, 5, and so is a key of the colorizer's palette.
\<close>

theorem nlcd_from_mrlc_palette_safe:
  assumes "fst (nlcd_from_mrlc env bbox width height layer epsg kwargs) = Inr (Some out)"
  shows "\<forall>p \<in> set (flat out). p \<in> {0, 1, 2, 3, 4, 5} \<and> map_of COLOR_MAP (uint p) \<noteq> None"
proof -
  from assms obtain img where "nlcd_remap img = Inr out"
    by (auto simp: nlcd_from_mrlc_def Let_def split: sum.splits)
  then have "take_all mapping_ar (flat img) = Inr (flat out)"
    by (auto simp: nlcd_remap_def split: sum.splits)
  then have "set (flat out) \<subseteq> {0, 1, 2, 3, 4, 5}"
    using take_all_member set_mapping_ar by metis
  then show ?thesis
    by (auto simp: COLOR_MAP_def)
qed

theorem nlcd_from_mrlc_palette_safe_witness:
  "fst (nlcd_from_mrlc (env_serving \<lparr>shape = [1, 3], flat = [9, 3, 0]\<rparr>)
          [0, 0, 30, 30] 3 1 ''NLCD_2016_Land_Cover_L48'' 5070 []) =
     Inr (Some \<lparr>shape = [1, 3], flat = [2, 5, 0]\<rparr>) \<and>
   list_all (\<lambda>p. p \<in> {0, 1, 2, 3, 4, 5} \<and> map_of COLOR_MAP (uint p) \<noteq> None)
     [2, 5, 0 :: 8 word]"
proof -
  have run: "fst (nlcd_from_mrlc (env_serving \<lparr>shape = [1, 3], flat = [9, 3, 0]\<rparr>)
          [0, 0, 30, 30] 3 1 ''NLCD_2016_Land_Cover_L48'' 5070 []) =
     Inr (Some \<lparr>shape = [1, 3], flat = [2, 5, 0]\<rparr>)"
    by (simp add: nlcd_from_mrlc_def env_serving_def nlcd_remap_def np_index_def
        mapping_ar_literal Let_def)
  from nlcd_from_mrlc_palette_safe [OF run] run show ?thesis
    by (simp add: list_all_iff)
qed

section \<open>Properties of the fetchers\<close>

lemma map_of_dict_update:
  "map_of (dict_update k v ps) = (map_of ps)(k \<mapsto> v)"
  by (simp add: dict_update_def update_conv')

lemma distinct_dict_update:
  "distinct (map fst ps) \<Longrightarrow> distinct (map fst (dict_update k v ps))"
  by (simp add: dict_update_def distinct_update)

lemma merge_kwargs_Nil: "merge_kwargs ps [] = ps"
  by (simp add: merge_kwargs_def)

lemma merge_kwargs_Cons:
  "merge_kwargs ps (kv # kwargs) = merge_kwargs (dict_update (fst kv) (snd kv) ps) kwargs"
  by (simp add: merge_kwargs_def)

lemma distinct_merge_kwargs:
  "distinct (map fst ps) \<Longrightarrow> distinct (map fst (merge_kwargs ps kwargs))"
  by (induction kwargs arbitrary: ps) (simp_all add: merge_kwargs_Nil merge_kwargs_Cons distinct_dict_update)

lemma merge_kwargs_other:
  "key \<notin> fst ` set kwargs \<Longrightarrow> map_of (merge_kwargs ps kwargs) key = map_of ps key"
  by (induction kwargs arbitrary: ps)
     (auto simp: merge_kwargs_Nil merge_kwargs_Cons map_of_dict_update)

lemma merge_kwargs_override:
  "distinct (map fst kwargs) \<Longrightarrow> (key, val) \<in> set kwargs \<Longrightarrow>
     map_of (merge_kwargs ps kwargs) key = Some val"
proof (induction kwargs arbitrary: ps)
  case Nil
  then show ?case by simp
next
  case (Cons kv kwargs)
  show ?case
  proof (cases "kv = (key, val)")
    case True
    with Cons.prems have "key \<notin> fst ` set kwargs" by auto
    then show ?thesis
      using True by (simp add: merge_kwargs_Cons merge_kwargs_other map_of_dict_update)
  next
    case False
    with Cons.prems have "distinct (map fst kwargs)" "(key, val) \<in> set kwargs" by auto
    then show ?thesis
      by (simp add: merge_kwargs_Cons Cons.IH)
  qed
qed

lemma retry_loop_done:
  "retry_loop env ps retries (Some a) issued = (Some a, issued)"
  by (simp add: retry_loop.simps)

lemma retry_loop_None:
  "retry_loop env ps retries None issued =
     (if 0 < retries then
        (case requests_get env (length issued) NAIP_BASE_URL ps of
           Inl e \<Rightarrow> retry_loop env ps (retries - 1) None (issued @ [(NAIP_BASE_URL, ps)])
         | Inr content \<Rightarrow>
             (case imread env content None of
                Inl e \<Rightarrow> retry_loop env ps (retries - 1) None (issued @ [(NAIP_BASE_URL, ps)])
              | Inr a \<Rightarrow> (Some a, issued @ [(NAIP_BASE_URL, ps)])))
      else (None, issued))"
  by (subst retry_loop.simps) (simp add: retry_loop_done split: sum.splits)

lemma retry_loop_issued:
  "\<exists>k. snd (retry_loop env ps retries None issued) = issued @ replicate k (NAIP_BASE_URL, ps) \<and>
       (0 < retries \<longrightarrow> 0 < k)"
proof (induction "nat retries" arbitrary: retries issued)
  case 0
  then have "snd (retry_loop env ps retries None issued) = issued @ replicate 0 (NAIP_BASE_URL, ps)"
    and "\<not> 0 < retries"
    by (simp_all add: retry_loop_None)
  then show ?case by blast
next
  case (Suc n)
  then have pos: "0 < retries" and n: "n = nat (retries - 1)" by auto
  let ?next = "issued @ [(NAIP_BASE_URL, ps)]"
  from Suc.hyps(1) [OF n, of ?next] obtain k where
    k: "snd (retry_loop env ps (retries - 1) None ?next) = ?next @ replicate k (NAIP_BASE_URL, ps)"
    by blast
  have "snd (retry_loop env ps retries None issued) = ?next @ replicate k (NAIP_BASE_URL, ps)
      \<or> snd (retry_loop env ps retries None issued) = ?next @ replicate 0 (NAIP_BASE_URL, ps)"
    using pos k by (simp add: retry_loop_None [of env ps retries] split: sum.splits)
  then have "snd (retry_loop env ps retries None issued) = issued @ replicate (Suc k) (NAIP_BASE_URL, ps)
      \<or> snd (retry_loop env ps retries None issued) = issued @ replicate (Suc 0) (NAIP_BASE_URL, ps)"
    by (simp add: replicate_append_same)
  then show ?case by blast
qed

lemma retry_loop_all_fail:
  assumes "\<forall>n. attempt_fails env NAIP_BASE_URL ps None n"
  shows "retry_loop env ps retries None issued =
           (None, issued @ replicate (nat retries) (NAIP_BASE_URL, ps))"
proof (induction "nat retries" arbitrary: retries issued)
  case 0
  then show ?case by (simp add: retry_loop_None)
next
  case (Suc k)
  then have pos: "0 < retries" and k: "k = nat (retries - 1)" by auto
  from assms have "attempt_fails env NAIP_BASE_URL ps None (length issued)" by blast
  then have "retry_loop env ps retries None issued =
      retry_loop env ps (retries - 1) None (issued @ [(NAIP_BASE_URL, ps)])"
    using pos by (auto simp: attempt_fails_def retry_loop_None [of env ps retries] split: sum.splits)
  also have "\<dots> = (None, (issued @ [(NAIP_BASE_URL, ps)]) @ replicate (nat (retries - 1)) (NAIP_BASE_URL, ps))"
    using Suc.hyps(1) [OF k] .
  also have "\<dots> = (None, issued @ replicate (nat retries) (NAIP_BASE_URL, ps))"
    using Suc.hyps(2) [symmetric] k by (simp add: replicate_append_same)
  finally show ?case .
qed

text \<open>
  Claim C3. When every attempt of \<^verbatim>\<open>naip2016_from_orgeo\<close> fails, at the request or at
  the decode, the call issues exactly \<open>num_retries\<close> requests, the first one included,
  and returns \<^verbatim>\<open>None\<close>; it does not raise. (\<open>nat\<close> reads a negative count as no
  attempt at all.)
\<close>

theorem naip2016_retry_exhaustion:
  assumes "\<forall>n. attempt_fails env NAIP_BASE_URL
                 (naip_params env bbox width height epsg kwargs) None n"
  shows "fst (naip2016_from_orgeo env bbox width height epsg num_retries kwargs) = Inr None \<and>
         length (snd (naip2016_from_orgeo env bbox width height epsg num_retries kwargs)) =
           nat num_retries"
  by (simp add: naip2016_from_orgeo_def Let_def retry_loop_all_fail [OF assms])

theorem naip2016_retry_exhaustion_witness:
  "attempt_fails env_down NAIP_BASE_URL (naip_params env_down [0, 0, 30, 30] 3 1 5070 []) None 7 \<and>
   fst (naip2016_from_orgeo env_down [0, 0, 30, 30] 3 1 5070 3 []) = Inr None \<and>
   length (snd (naip2016_from_orgeo env_down [0, 0, 30, 30] 3 1 5070 3 [])) = 3"
proof -
  have fails: "\<forall>n. attempt_fails env_down NAIP_BASE_URL
                 (naip_params env_down [0, 0, 30, 30] 3 1 5070 []) None n"
    by (simp add: attempt_fails_def env_down_def)
  from naip2016_retry_exhaustion [OF fails, of 3] fails show ?thesis
    by simp
qed

text \<open>
  Claim C5, as the code has it. The extra keywords of a call have distinct keys, as those
  of a dictionary have. When none of them names a formal parameter of the fetcher, a key
  the caller passes has the caller's value in the parameters the fetcher sends, whether
  or not the key is one of the defaults, and no key occurs twice there, so the default
  is gone. Every request \<^verbatim>\<open>naip2016_from_orgeo\<close> issues carries exactly these
  parameters, and it issues at least one when \<open>num_retries\<close> is positive;
  \<^verbatim>\<open>nlcd_from_mrlc\<close> issues exactly one request, with these parameters. When an extra
  keyword names a formal parameter, the call raises \<^verbatim>\<open>TypeError\<close> and issues no
  request.
\<close>

theorem kwargs_override:
  assumes "distinct (map fst kwargs)" and "(key, val) \<in> set kwargs"
  shows "(binds NAIP_FORMALS kwargs \<longrightarrow>
            map_of (naip_params env bbox width height epsg kwargs) key = Some val \<and>
            distinct (map fst (naip_params env bbox width height epsg kwargs)) \<and>
            (\<exists>k. snd (call_naip2016_from_orgeo env bbox width height epsg num_retries kwargs) =
                    replicate k (NAIP_BASE_URL, naip_params env bbox width height epsg kwargs) \<and>
                  (0 < num_retries \<longrightarrow> 0 < k))) \<and>
         (binds NLCD_FORMALS kwargs \<longrightarrow>
            map_of (nlcd_params env bbox width height layer epsg kwargs) key = Some val \<and>
            distinct (map fst (nlcd_params env bbox width height layer epsg kwargs)) \<and>
            snd (call_nlcd_from_mrlc env bbox width height layer epsg kwargs) =
              [(NLCD_BASE_URL, nlcd_params env bbox width height layer epsg kwargs)]) \<and>
         (\<not> binds NAIP_FORMALS kwargs \<longrightarrow>
            call_naip2016_from_orgeo env bbox width height epsg num_retries kwargs =
              (Inl TypeError, [])) \<and>
         (\<not> binds NLCD_FORMALS kwargs \<longrightarrow>
            call_nlcd_from_mrlc env bbox width height layer epsg kwargs = (Inl TypeError, []))"
proof -
  let ?ps = "naip_params env bbox width height epsg kwargs"
  have "map_of ?ps key = Some val"
    unfolding naip_params_def by (rule merge_kwargs_override [OF assms])
  moreover have "distinct (map fst ?ps)"
    unfolding naip_params_def by (rule distinct_merge_kwargs) simp
  moreover have
    "\<exists>k. snd (naip2016_from_orgeo env bbox width height epsg num_retries kwargs) =
            replicate k (NAIP_BASE_URL, ?ps) \<and> (0 < num_retries \<longrightarrow> 0 < k)"
  proof -
    obtain k where "snd (retry_loop env ?ps num_retries None []) =
        [] @ replicate k (NAIP_BASE_URL, ?ps)" and "0 < num_retries \<longrightarrow> 0 < k"
      using retry_loop_issued by blast
    then have "snd (naip2016_from_orgeo env bbox width height epsg num_retries kwargs) =
            replicate k (NAIP_BASE_URL, ?ps) \<and> (0 < num_retries \<longrightarrow> 0 < k)"
      by (auto simp: naip2016_from_orgeo_def Let_def split: prod.splits)
    then show ?thesis by blast
  qed
  moreover have "map_of (nlcd_params env bbox width height layer epsg kwargs) key = Some val"
    unfolding nlcd_params_def by (rule merge_kwargs_override [OF assms])
  moreover have "distinct (map fst (nlcd_params env bbox width height layer epsg kwargs))"
    unfolding nlcd_params_def by (rule distinct_merge_kwargs) simp
  moreover have "snd (nlcd_from_mrlc env bbox width height layer epsg kwargs) =
           [(NLCD_BASE_URL, nlcd_params env bbox width height layer epsg kwargs)]"
    by (simp add: nlcd_from_mrlc_def Let_def split: sum.splits)
  ultimately show ?thesis
    by (simp add: call_naip2016_from_orgeo_def call_nlcd_from_mrlc_def)
qed

theorem kwargs_override_witness:
  "distinct (map fst [(''format'', PStr ''png''), (''token'', PStr ''abc'')]) \<and>
   (''format'', PStr ''png'') \<in> set [(''format'', PStr ''png''), (''token'', PStr ''abc'')] \<and>
   binds NAIP_FORMALS [(''format'', PStr ''png''), (''token'', PStr ''abc'')] \<and>
   binds NLCD_FORMALS [(''format'', PStr ''png''), (''token'', PStr ''abc'')] \<and>
   map_of (naip_params env_down [0, 0, 30, 30] 3 1 5070
             [(''format'', PStr ''png''), (''token'', PStr ''abc'')]) ''format'' =
     Some (PStr ''png'') \<and>
   (\<exists>k. snd (call_naip2016_from_orgeo env_down [0, 0, 30, 30] 3 1 5070 3
               [(''format'', PStr ''png''), (''token'', PStr ''abc'')]) =
           replicate k (NAIP_BASE_URL, naip_params env_down [0, 0, 30, 30] 3 1 5070
               [(''format'', PStr ''png''), (''token'', PStr ''abc'')]) \<and> 0 < k) \<and>
   map_of (nlcd_params env_down [0, 0, 30, 30] 3 1 ''NLCD_2016_Land_Cover_L48'' 5070
             [(''format'', PStr ''png''), (''token'', PStr ''abc'')]) ''format'' =
     Some (PStr ''png'') \<and>
   snd (call_nlcd_from_mrlc env_down [0, 0, 30, 30] 3 1 ''NLCD_2016_Land_Cover_L48'' 5070
          [(''format'', PStr ''png''), (''token'', PStr ''abc'')]) =
     [(NLCD_BASE_URL, nlcd_params env_down [0, 0, 30, 30] 3 1 ''NLCD_2016_Land_Cover_L48'' 5070
          [(''format'', PStr ''png''), (''token'', PStr ''abc'')])] \<and>
   \<not> binds NAIP_FORMALS [(''bbox'', PStr ''0,0,1,1'')] \<and>
   \<not> binds NLCD_FORMALS [(''bbox'', PStr ''0,0,1,1'')] \<and>
   call_naip2016_from_orgeo env_down [0, 0, 30, 30] 3 1 5070 3 [(''bbox'', PStr ''0,0,1,1'')] =
     (Inl TypeError, []) \<and>
   call_nlcd_from_mrlc env_down [0, 0, 30, 30] 3 1 ''NLCD_2016_Land_Cover_L48'' 5070
     [(''bbox'', PStr ''0,0,1,1'')] = (Inl TypeError, [])"
proof -
  let ?kw = "[(''format'', PStr ''png''), (''token'', PStr ''abc'')]"
  let ?bad = "[(''bbox'', PStr ''0,0,1,1'')]"
  have d: "distinct (map fst ?kw)" by simp
  have m: "(''format'', PStr ''png'') \<in> set ?kw" by simp
  have b: "binds NAIP_FORMALS ?kw" "binds NLCD_FORMALS ?kw"
    by (simp_all add: binds_def NAIP_FORMALS_def NLCD_FORMALS_def)
  have d': "distinct (map fst ?bad)" by simp
  have m': "(''bbox'', PStr ''0,0,1,1'') \<in> set ?bad" by simp
  have b': "\<not> binds NAIP_FORMALS ?bad" "\<not> binds NLCD_FORMALS ?bad"
    by (simp_all add: binds_def NAIP_FORMALS_def NLCD_FORMALS_def)
  have pos: "(0 :: int) < 3" by simp
  from kwargs_override [OF d m, of env_down "[0, 0, 30, 30]" 3 1 5070 3
      "''NLCD_2016_Land_Cover_L48''"] b pos
  have good: "map_of (naip_params env_down [0, 0, 30, 30] 3 1 5070 ?kw) ''format'' =
       Some (PStr ''png'') \<and>
     (\<exists>k. snd (call_naip2016_from_orgeo env_down [0, 0, 30, 30] 3 1 5070 3 ?kw) =
           replicate k (NAIP_BASE_URL, naip_params env_down [0, 0, 30, 30] 3 1 5070 ?kw) \<and>
           0 < k) \<and>
     map_of (nlcd_params env_down [0, 0, 30, 30] 3 1 ''NLCD_2016_Land_Cover_L48'' 5070 ?kw)
       ''format'' = Some (PStr ''png'') \<and>
     snd (call_nlcd_from_mrlc env_down [0, 0, 30, 30] 3 1 ''NLCD_2016_Land_Cover_L48'' 5070 ?kw) =
       [(NLCD_BASE_URL,
         nlcd_params env_down [0, 0, 30, 30] 3 1 ''NLCD_2016_Land_Cover_L48'' 5070 ?kw)]"
    by blast
  from kwargs_override [OF d' m', of env_down "[0, 0, 30, 30]" 3 1 5070 3
      "''NLCD_2016_Land_Cover_L48''"] b'
  have bad: "call_naip2016_from_orgeo env_down [0, 0, 30, 30] 3 1 5070 3 ?bad =
       (Inl TypeError, []) \<and>
     call_nlcd_from_mrlc env_down [0, 0, 30, 30] 3 1 ''NLCD_2016_Land_Cover_L48'' 5070 ?bad =
       (Inl TypeError, [])"
    by blast
  from good bad d m b b' show ?thesis by blast
qed

text \<open>
  The claim as the specification words it covers every key that collides with a default.
  \<open>width\<close> is a default parameter of the land-cover request and also a formal
  parameter of \<^verbatim>\<open>nlcd_from_mrlc\<close>: passed as an extra keyword it overrides nothing, the
  call raises and no request is sent.
\<close>

theorem kwargs_override_width_counterexample:
  "map_of (nlcd_params env_down [0, 0, 30, 30] 3 1 ''NLCD_2016_Land_Cover_L48'' 5070 [])
     ''width'' = Some (PInt 3) \<and>
   call_nlcd_from_mrlc env_down [0, 0, 30, 30] 3 1 ''NLCD_2016_Land_Cover_L48'' 5070
     [(''width'', PInt 7)] = (Inl TypeError, [])"
  by (simp add: nlcd_params_def merge_kwargs_def call_nlcd_from_mrlc_def binds_def
      NLCD_FORMALS_def)

text \<open>
  Claim C7. \<^verbatim>\<open>nlcd_from_mrlc\<close> issues one request. When the request raises, or the
  decode of its body raises, the call raises that same exception; and whatever happens,
  the call never returns \<^verbatim>\<open>None\<close>.
\<close>

theorem nlcd_from_mrlc_propagates:
  "(let ps = nlcd_params env bbox width height layer epsg kwargs;
        r = nlcd_from_mrlc env bbox width height layer epsg kwargs
    in (requests_get env 0 NLCD_BASE_URL ps = Inl e \<longrightarrow> fst r = Inl e) \<and>
       (requests_get env 0 NLCD_BASE_URL ps = Inr content \<and>
        imread env content (Some ''tiff'') = Inl e \<longrightarrow> fst r = Inl e) \<and>
       fst r \<noteq> Inr None \<and>
       snd r = [(NLCD_BASE_URL, ps)])"
  by (simp add: nlcd_from_mrlc_def Let_def split: sum.splits)

theorem nlcd_from_mrlc_propagates_witness:
  "fst (nlcd_from_mrlc env_down [0, 0, 30, 30] 3 1 ''NLCD_2016_Land_Cover_L48'' 5070 []) =
     Inl (TransportFailure ''connection refused'') \<and>
   fst (nlcd_from_mrlc env_garbled [0, 0, 30, 30] 3 1 ''NLCD_2016_Land_Cover_L48'' 5070 []) =
     Inl (DecodeFailure ''not an image'') \<and>
   length (snd (nlcd_from_mrlc env_down [0, 0, 30, 30] 3 1 ''NLCD_2016_Land_Cover_L48'' 5070 []))
     = 1"
proof -
  have a: "requests_get env_down 0 NLCD_BASE_URL
             (nlcd_params env_down [0, 0, 30, 30] 3 1 ''NLCD_2016_Land_Cover_L48'' 5070 []) =
           Inl (TransportFailure ''connection refused'')"
    by (simp add: env_down_def)
  have b: "requests_get env_garbled 0 NLCD_BASE_URL
             (nlcd_params env_garbled [0, 0, 30, 30] 3 1 ''NLCD_2016_Land_Cover_L48'' 5070 []) =
           Inr ''<html>error</html>'' \<and>
           imread env_garbled ''<html>error</html>'' (Some ''tiff'') =
           Inl (DecodeFailure ''not an image'')"
    by (simp add: env_garbled_def)
  from a nlcd_from_mrlc_propagates [of env_down "[0, 0, 30, 30]" 3 1
      "''NLCD_2016_Land_Cover_L48''" 5070 "[]" "TransportFailure ''connection refused''"]
  have "fst (nlcd_from_mrlc env_down [0, 0, 30, 30] 3 1 ''NLCD_2016_Land_Cover_L48'' 5070 []) =
          Inl (TransportFailure ''connection refused'') \<and>
        length (snd (nlcd_from_mrlc env_down [0, 0, 30, 30] 3 1
          ''NLCD_2016_Land_Cover_L48'' 5070 [])) = 1"
    by (simp add: Let_def)
  moreover from b nlcd_from_mrlc_propagates [of env_garbled "[0, 0, 30, 30]" 3 1
      "''NLCD_2016_Land_Cover_L48''" 5070 "[]" "DecodeFailure ''not an image''"
      "''<html>error</html>''"]
  have "fst (nlcd_from_mrlc env_garbled [0, 0, 30, 30] 3 1 ''NLCD_2016_Land_Cover_L48'' 5070 []) =
          Inl (DecodeFailure ''not an image'')"
    by (simp add: Let_def)
  ultimately show ?thesis by blast
qed

section \<open>Properties of the colorizer\<close>

lemma palette_length: "map_of COLOR_MAP c = Some col \<Longrightarrow> length col = 3"
  by (auto simp: COLOR_MAP_def split: if_splits)

lemma palette_keys: "map_of COLOR_MAP c = None \<longleftrightarrow> c \<notin> {0, 1, 2, 3, 4, 5, 255}"
  by (simp add: COLOR_MAP_def)

lemma rgb_of_table:
  "map rgb_of [0, 1, 2, 3, 4, 5, 255] =
     [[255, 255, 255], [0, 0, 255], [0, 127, 0], [127, 255, 127], [127, 95, 95],
      [0, 0, 0], [255, 0, 0]]"
  by (simp add: rgb_of_def COLOR_MAP_def astype_uint8_def)

lemma assign_rows_blocks:
  "length ms = length pxs \<Longrightarrow> \<forall>px \<in> set pxs. length px = k \<Longrightarrow>
     assign_rows k ms (concat pxs) v = concat (map2 (\<lambda>m px. if m then v else px) ms pxs)"
proof (induction ms arbitrary: pxs)
  case Nil
  then show ?case by simp
next
  case (Cons m ms)
  then obtain px rest where pxs: "pxs = px # rest" by (cases pxs) auto
  with Cons.prems have "length ms = length rest" "\<forall>px \<in> set rest. length px = k" "length px = k"
    by auto
  with Cons.IH [of rest] pxs show ?case by simp
qed

lemma setitem_mask_2d:
  assumes "shape a = [H, W, 3]" and "shape m = [H, W]" and "length v = 3"
  shows "setitem_mask a m v = Inr (a\<lparr>flat := assign_rows 3 (flat m) (flat a) v\<rparr>)"
  using assms by (simp add: setitem_mask_def Let_def)

lemma colorize_loop_2d:
  assumes "shape img = [H, W]"
    and "\<forall>c \<in> set covs. map_of COLOR_MAP c \<noteq> None"
    and "length pxs = length (flat img)"
    and "\<forall>px \<in> set pxs. length px = 3"
  shows "colorize_loop covs img \<lparr>shape = [H, W, 3], flat = concat pxs\<rparr> =
           Inr \<lparr>shape = [H, W, 3],
                flat = concat (map2 (\<lambda>x px. if x \<in> set covs then the (map_of COLOR_MAP x) else px)
                                (flat img) pxs)\<rparr>"
  using assms(2-4)
proof (induction covs arbitrary: pxs)
  case Nil
  then show ?case by (simp add: case_prod_unfold map_snd_zip)
next
  case (Cons cov covs)
  then obtain col where col: "map_of COLOR_MAP cov = Some col" by auto
  then have len: "length col = 3" by (rule palette_length)
  let ?pxs' = "map2 (\<lambda>m px. if m then col else px) (flat (np_eq img cov)) pxs"
  have step: "setitem_mask \<lparr>shape = [H, W, 3], flat = concat pxs\<rparr> (np_eq img cov) col =
      Inr \<lparr>shape = [H, W, 3], flat = concat ?pxs'\<rparr>"
    using Cons.prems assms(1) len
    by (simp add: setitem_mask_2d [where H = H and W = W] np_eq_def assign_rows_blocks)
  have l': "length ?pxs' = length (flat img)"
    using Cons.prems by (simp add: np_eq_def)
  have b': "\<forall>px \<in> set ?pxs'. length px = 3"
    using Cons.prems len by (auto simp: set_zip)
  have c': "\<forall>c \<in> set covs. map_of COLOR_MAP c \<noteq> None"
    using Cons.prems by simp
  have "map2 (\<lambda>x px. if x \<in> set covs then the (map_of COLOR_MAP x) else px) (flat img) ?pxs' =
        map2 (\<lambda>x px. if x \<in> set (cov # covs) then the (map_of COLOR_MAP x) else px) (flat img) pxs"
    using Cons.prems(2) col
    by (intro nth_equalityI) (auto simp: np_eq_def)
  with Cons.IH [OF c' l' b'] step col show ?case
    by (simp add: Let_def)
qed

lemma set_np_unique: "set (np_unique img) = set (flat img)"
  by (simp add: np_unique_def)

lemma np_zeros_blocks:
  "np_zeros [H, W, 3] = \<lparr>shape = [H, W, 3], flat = concat (replicate (H * W) [0, 0, 0])\<rparr>"
proof -
  have "concat (replicate n [0, 0, 0 :: real]) = replicate (n * 3) 0" for n
    by (induction n) (simp_all add: numeral_3_eq_3)
  then show ?thesis by (simp add: np_zeros_def)
qed

lemma colorize_landcover_2d:
  assumes "shape img = [H, W]" and "length (flat img) = H * W"
    and "\<forall>x \<in> set (flat img). map_of COLOR_MAP x \<noteq> None"
  shows "colorize_landcover img =
           Inr \<lparr>shape = [H, W, 3], flat = concat (map rgb_of (flat img))\<rparr>"
proof -
  let ?z = "replicate (H * W) [0, 0, 0 :: real]"
  have "colorize_loop (np_unique img) img \<lparr>shape = [H, W, 3], flat = concat ?z\<rparr> =
      Inr \<lparr>shape = [H, W, 3],
           flat = concat (map2 (\<lambda>x px. if x \<in> set (np_unique img)
                     then the (map_of COLOR_MAP x) else px) (flat img) ?z)\<rparr>"
    using assms by (intro colorize_loop_2d) (simp_all add: set_np_unique)
  moreover have "map2 (\<lambda>x px. if x \<in> set (np_unique img)
                     then the (map_of COLOR_MAP x) else px) (flat img) ?z =
                 map (\<lambda>x. the (map_of COLOR_MAP x)) (flat img)"
    using assms(2) by (intro nth_equalityI) (simp_all add: set_np_unique)
  ultimately have loop: "colorize_loop (np_unique img) img (np_zeros [H, W, 3]) =
      Inr \<lparr>shape = [H, W, 3], flat = concat (map (\<lambda>x. the (map_of COLOR_MAP x)) (flat img))\<rparr>"
    by (simp add: np_zeros_blocks)
  have scaled: "map (\<lambda>y. astype_uint8 (y * 255)) (concat (map (\<lambda>x. the (map_of COLOR_MAP x)) xs)) =
      concat (map rgb_of xs)" for xs
    by (induction xs) (simp_all add: rgb_of_def)
  from loop scaled [of "flat img"] assms(1) show ?thesis
    by (simp add: colorize_landcover_def scale_to_uint8_def)
qed




lemma setitem_mask_shape: "setitem_mask a m v = Inr a' \<Longrightarrow> shape a' = shape a"
  by (auto simp: setitem_mask_def Let_def split: if_splits)

lemma colorize_loop_shape:
  "colorize_loop covs img cc = Inr cc' \<Longrightarrow> shape cc' = shape cc"
proof (induction covs arbitrary: cc)
  case Nil
  then show ?case by simp
next
  case (Cons cov covs)
  then obtain col mid where "setitem_mask cc (np_eq img cov) col = Inr mid"
    and "colorize_loop covs img mid = Inr cc'"
    by (auto simp: Let_def split: option.splits sum.splits)
  with Cons.IH [of mid] show ?case by (simp add: setitem_mask_shape)
qed

lemma setitem_mask_error:
  "setitem_mask a m v = Inl e \<Longrightarrow> e = IndexError \<or> e = ValueError"
  by (auto simp: setitem_mask_def Let_def split: if_splits)

lemma colorize_loop_missing_key:
  "\<exists>c \<in> set covs. map_of COLOR_MAP c = None \<Longrightarrow>
     colorize_loop covs img cc \<in> {Inl KeyError, Inl IndexError, Inl ValueError}"
proof (induction covs arbitrary: cc)
  case Nil
  then show ?case by simp
next
  case (Cons cov covs)
  show ?case
  proof (cases "map_of COLOR_MAP cov")
    case None
    then show ?thesis by (simp add: Let_def)
  next
    case (Some col)
    with Cons.prems have rest: "\<exists>c \<in> set covs. map_of COLOR_MAP c = None" by auto
    show ?thesis
    proof (cases "setitem_mask cc (np_eq img cov) col")
      case (Inl e)
      with setitem_mask_error [OF Inl] Some show ?thesis by (auto simp: Let_def)
    next
      case (Inr mid)
      with Cons.IH [OF rest, of mid] Some show ?thesis by (simp add: Let_def)
    qed
  qed
qed

lemma colorize_loop_2d_missing_key:
  assumes "shape img = [H, W]"
  shows "\<exists>c \<in> set covs. map_of COLOR_MAP c = None \<Longrightarrow> shape cc = [H, W, 3] \<Longrightarrow>
           colorize_loop covs img cc = Inl KeyError"
proof (induction covs arbitrary: cc)
  case Nil
  then show ?case by simp
next
  case (Cons cov covs)
  show ?case
  proof (cases "map_of COLOR_MAP cov")
    case None
    then show ?thesis by (simp add: Let_def)
  next
    case (Some col)
    then have len: "length col = 3" by (rule palette_length)
    let ?mid = "cc\<lparr>flat := assign_rows 3 (flat (np_eq img cov)) (flat cc) col\<rparr>"
    have step: "setitem_mask cc (np_eq img cov) col = Inr ?mid"
      using Cons.prems(2) assms len by (intro setitem_mask_2d) (simp_all add: np_eq_def)
    from Cons.prems Some have "\<exists>c \<in> set covs. map_of COLOR_MAP c = None" by auto
    moreover have "shape ?mid = [H, W, 3]" using Cons.prems(2) by simp
    ultimately have "colorize_loop covs img ?mid = Inl KeyError" by (rule Cons.IH)
    with Some step show ?thesis by (simp add: Let_def)
  qed
qed

lemma length_assign_elems: "length (assign_elems ms cs vs) = length cs"
  by (induction ms cs vs rule: assign_elems.induct) simp_all

lemma length_assign_rows:
  "length v = k \<Longrightarrow> length cs = k * length ms \<Longrightarrow> length (assign_rows k ms cs v) = length cs"
  by (induction ms arbitrary: cs) simp_all

lemma last_dvd_prod_list: "rest \<noteq> [] \<Longrightarrow> last rest dvd prod_list (rest :: nat list)"
  by (induction rest) auto

lemma setitem_mask_wf:
  assumes "setitem_mask a m v = Inr a'" and "wf_array a" and "wf_array m"
  shows "wf_array a'"
proof (cases "shape m = shape a")
  case True
  with assms show ?thesis
    by (auto simp: setitem_mask_def Let_def wf_array_def length_assign_elems split: if_splits)
next
  case False
  let ?n = "length (shape m)"
  let ?rest = "drop ?n (shape a)"
  let ?k = "prod_list ?rest"
  from assms(1) False have pre: "shape m = take ?n (shape a)" and le: "?n \<le> length (shape a)"
    by (auto simp: setitem_mask_def Let_def split: if_splits)
  from pre have "prod_list (shape a) = prod_list (shape m) * ?k"
    by (metis append_take_drop_id prod_list.append)
  with assms(2,3) have len: "length (flat a) = ?k * length (flat m)"
    by (simp add: wf_array_def)
  from pre le False have ne: "?rest \<noteq> []"
    by auto
  obtain blk where a': "a' = a\<lparr>flat := assign_rows ?k (flat m) (flat a) blk\<rparr>"
    and blk: "length blk = ?k"
  proof (cases "length v = 1")
    case True
    with assms(1) False pre le
    have "a' = a\<lparr>flat := assign_rows ?k (flat m) (flat a) (replicate ?k (hd v))\<rparr>"
      by (auto simp: setitem_mask_def Let_def split: if_splits)
    then show ?thesis using that by simp
  next
    case one: False
    with assms(1) False pre le
    have eq: "a' = a\<lparr>flat := assign_rows ?k (flat m) (flat a)
                (concat (replicate (?k div length v) v))\<rparr>"
      and lv: "length v = last ?rest"
      by (auto simp: setitem_mask_def Let_def split: if_splits)
    from lv last_dvd_prod_list [OF ne] have "length v dvd ?k" by simp
    then have "length (concat (replicate (?k div length v) v)) = ?k"
      by (simp add: length_concat sum_list_replicate)
    with eq show ?thesis using that by blast
  qed
  from length_assign_rows [OF blk len] a' assms(2) show ?thesis
    by (simp add: wf_array_def)
qed

lemma np_eq_wf: "wf_array img \<Longrightarrow> wf_array (np_eq img cov)"
  by (simp add: wf_array_def np_eq_def)

lemma colorize_loop_wf:
  "colorize_loop covs img cc = Inr cc' \<Longrightarrow> wf_array img \<Longrightarrow> wf_array cc \<Longrightarrow> wf_array cc'"
proof (induction covs arbitrary: cc)
  case Nil
  then show ?case by simp
next
  case (Cons cov covs)
  then obtain col mid where step: "setitem_mask cc (np_eq img cov) col = Inr mid"
    and rest: "colorize_loop covs img mid = Inr cc'"
    by (auto simp: Let_def split: option.splits sum.splits)
  from setitem_mask_wf [OF step Cons.prems(3) np_eq_wf [OF Cons.prems(2)]]
  have "wf_array mid" .
  with Cons.IH [OF rest Cons.prems(2)] show ?case .
qed

lemma np_zeros_wf: "wf_array (np_zeros shp)"
  by (simp add: wf_array_def np_zeros_def)

lemma scale_to_uint8_wf: "wf_array a \<Longrightarrow> wf_array (scale_to_uint8 a)"
  by (simp add: wf_array_def scale_to_uint8_def)



text \<open>
  The shape of what the colorizer returns. Whenever \<^verbatim>\<open>colorize_landcover\<close> returns an
  image, the input has at least two axes and the image has shape \<open>(H, W, 3)\<close> with
  \<open>H\<close> and \<open>W\<close> the input's first two axes; the image holds exactly \<open>H * W * 3\<close>
  samples. On a two-dimensional raster of palette keys the call always returns
  (\<open>colorize_landcover_2d\<close>).
\<close>

lemma colorize_landcover_shape:
  assumes "colorize_landcover img = Inr out" and "wf_array img"
  shows "2 \<le> length (shape img) \<and> shape out = [shape img ! 0, shape img ! 1, 3] \<and>
         wf_array out"
proof -
  from assms have rank: "2 \<le> length (shape img)"
    by (auto simp: colorize_landcover_def split: if_splits)
  with assms obtain cc where
    loop: "colorize_loop (np_unique img) img (np_zeros [shape img ! 0, shape img ! 1, 3]) = Inr cc"
    and out: "out = scale_to_uint8 cc"
    by (auto simp: colorize_landcover_def Let_def split: sum.splits)
  from colorize_loop_wf [OF loop assms(2) np_zeros_wf] out have "wf_array out"
    by (simp add: scale_to_uint8_wf)
  with colorize_loop_shape [OF loop] out rank show ?thesis
    by (simp add: np_zeros_def scale_to_uint8_def)
qed

text \<open>
  What the colorizer does with a raster of three axes, the \<open>(H, W, num_classes)\<close> input
  of its docstring. The mask \<^verbatim>\<open>img == cov\<close> has the raster's three axes and is applied
  to \<open>cover_colors\<close>, of shape \<open>(H, W, 3)\<close>. Unless the raster is empty, a last axis
  other than 3 makes the first iteration raise: \<^verbatim>\<open>IndexError\<close> at the mask when the
  smallest value of the raster is a palette key, \<^verbatim>\<open>KeyError\<close> before that when it is
  not.
\<close>

lemma colorize_landcover_rank3_rejects:
  assumes "shape img = [H, W, C]" and "C \<noteq> 3" and "flat img \<noteq> []"
  shows "colorize_landcover img = Inl IndexError \<or> colorize_landcover img = Inl KeyError"
proof -
  from assms(3) have "set (np_unique img) \<noteq> {}"
    by (simp add: set_np_unique)
  then obtain cov covs where u: "np_unique img = cov # covs"
    by (cases "np_unique img") auto
  have "setitem_mask (np_zeros [H, W, 3]) (np_eq img cov) col = Inl IndexError" for col
    using assms(1,2) by (simp add: setitem_mask_def np_zeros_def np_eq_def Let_def)
  then have "colorize_loop (cov # covs) img (np_zeros [H, W, 3]) = Inl IndexError \<or>
             colorize_loop (cov # covs) img (np_zeros [H, W, 3]) = Inl KeyError"
    by (simp add: Let_def split: option.splits)
  with u assms(1) show ?thesis
    by (auto simp: colorize_landcover_def Let_def)
qed

text \<open>
  With a last axis of 3 the mask has the shape of \<open>cover_colors\<close> and selects single
  samples; the three components of the colour must then be as many as the samples
  selected, so a value that does not occur exactly three times raises \<^verbatim>\<open>ValueError\<close>.
\<close>

lemma colorize_landcover_rank3_count:
  assumes "shape img = [H, W, 3]" and "flat img = replicate n c" and "n \<noteq> 0" and "n \<noteq> 3"
    and "map_of COLOR_MAP c \<noteq> None"
  shows "colorize_landcover img = Inl ValueError"
proof -
  have "remdups (replicate (Suc m) c) = [c]" for m
    by (induction m) simp_all
  with assms(2,3) have u: "np_unique img = [c]"
    by (cases n) (simp_all add: np_unique_def del: replicate_Suc)
  from assms(5) obtain col where col: "map_of COLOR_MAP c = Some col" by auto
  then have len: "length col = 3" by (rule palette_length)
  have "setitem_mask (np_zeros [H, W, 3]) (np_eq img c) col = Inl ValueError"
    using assms(1,2,4) len
    by (simp add: setitem_mask_def np_zeros_def np_eq_def Let_def)
  with u col assms(1) show ?thesis
    by (simp add: colorize_landcover_def Let_def)
qed

text \<open>
  Claim C4. The claim, like the docstring (\<open>img : arr, shape (H, W) or
  (H, W, num_classes)\<close>, result of shape \<open>(H, W, 3)\<close>), promises an image of three
  channels for any number of input channels. The code does not deliver it: on the
  one-hot raster of shape \<open>(1, 1, 5)\<close> the call raises \<^verbatim>\<open>IndexError\<close>, and on the
  raster of ones of shape \<open>(2, 2, 3)\<close> it raises \<^verbatim>\<open>ValueError\<close>; neither returns an
  image.
\<close>

theorem colorize_landcover_class_axis_raises:
  "colorize_landcover \<lparr>shape = [1, 1, 5], flat = [0, 1, 0, 0, 0]\<rparr> = Inl IndexError \<and>
   colorize_landcover \<lparr>shape = [2, 2, 3], flat = [1, 1, 1, 1, 1, 1, 1, 1, 1, 1, 1, 1]\<rparr> =
     Inl ValueError"
  by code_simp

text \<open>
  Claim C8. A raster holding a value that is not a palette key is never colorized: the
  call raises, and no pixel is skipped or given a default. On a two-dimensional raster
  the exception is the \<^verbatim>\<open>KeyError\<close> of the palette lookup. With other numbers of axes
  an earlier statement may raise first: \<^verbatim>\<open>img.shape[1]\<close> or the mask assignment of an
  earlier iteration, with \<^verbatim>\<open>IndexError\<close> or \<^verbatim>\<open>ValueError\<close>.
\<close>

theorem colorize_landcover_missing_key:
  assumes "\<exists>x \<in> set (flat img). x \<notin> {0, 1, 2, 3, 4, 5, 255}"
  shows "colorize_landcover img \<in> {Inl KeyError, Inl IndexError, Inl ValueError} \<and>
         (length (shape img) = 2 \<longrightarrow> colorize_landcover img = Inl KeyError)"
proof -
  from assms have bad: "\<exists>c \<in> set (np_unique img). map_of COLOR_MAP c = None"
    unfolding palette_keys set_np_unique by blast
  have "colorize_landcover img \<in> {Inl KeyError, Inl IndexError, Inl ValueError}"
  proof (cases "length (shape img) < 2")
    case True
    then show ?thesis by (simp add: colorize_landcover_def)
  next
    case False
    from colorize_loop_missing_key [OF bad]
    obtain e where
      "colorize_loop (np_unique img) img (np_zeros [shape img ! 0, shape img ! 1, 3]) = Inl e"
      and "e \<in> {KeyError, IndexError, ValueError}"
      by (metis insertE insert_iff singletonD)
    with False show ?thesis by (auto simp: colorize_landcover_def)
  qed
  moreover have "colorize_landcover img = Inl KeyError" if "length (shape img) = 2"
  proof -
    from that obtain H W where hw: "shape img = [H, W]"
      by (cases "shape img"; cases "tl (shape img)") auto
    have "colorize_loop (np_unique img) img (np_zeros [H, W, 3]) = Inl KeyError"
      using hw bad by (rule colorize_loop_2d_missing_key) (simp add: np_zeros_def)
    with hw show ?thesis by (simp add: colorize_landcover_def)
  qed
  ultimately show ?thesis by blast
qed

theorem colorize_landcover_missing_key_witness:
  "(\<exists>x \<in> set (flat \<lparr>shape = [2, 2], flat = [1, 255, 7, 4 :: int]\<rparr>).
      x \<notin> {0, 1, 2, 3, 4, 5, 255}) \<and>
   length (shape \<lparr>shape = [2, 2], flat = [1, 255, 7, 4 :: int]\<rparr>) = 2 \<and>
   colorize_landcover \<lparr>shape = [2, 2], flat = [1, 255, 7, 4]\<rparr> = Inl KeyError"
proof -
  have bad: "\<exists>x \<in> set (flat \<lparr>shape = [2, 2], flat = [1, 255, 7, 4 :: int]\<rparr>).
      x \<notin> {0, 1, 2, 3, 4, 5, 255}"
    by simp
  from colorize_landcover_missing_key [OF bad] bad show ?thesis by simp
qed

text \<open>
  Claim C6. When the response decodes to an \<open>H\<close> by \<open>W\<close> raster holding only 9,
  \<^verbatim>\<open>nlcd_from_mrlc\<close> returns the \<open>H\<close> by \<open>W\<close> raster holding only 2, and
  \<^verbatim>\<open>colorize_landcover\<close> turns that raster into the image whose every pixel is
  \<open>(0, 127, 0)\<close>: 0.5 * 255 = 127.5 is truncated to 127.
\<close>

theorem nlcd_then_colorize_forest:
  assumes "requests_get env 0 NLCD_BASE_URL
             (nlcd_params env bbox width height layer epsg kwargs) = Inr content"
    and "imread env content (Some ''tiff'') = Inr img"
    and "shape img = [H, W]" and "flat img = replicate (H * W) 9"
  shows "fst (nlcd_from_mrlc env bbox width height layer epsg kwargs) =
           Inr (Some \<lparr>shape = [H, W], flat = replicate (H * W) 2\<rparr>) \<and>
         colorize_landcover (as_int \<lparr>shape = [H, W], flat = replicate (H * W) 2\<rparr>) =
           Inr \<lparr>shape = [H, W, 3], flat = concat (replicate (H * W) [0, 127, 0])\<rparr>"
proof -
  have "take_all mapping_ar (replicate n 9) = Inr (replicate n 2)" for n
    by (induction n) (simp_all add: np_index_def length_mapping_ar mapping_ar_literal)
  with assms have fetch: "fst (nlcd_from_mrlc env bbox width height layer epsg kwargs) =
           Inr (Some \<lparr>shape = [H, W], flat = replicate (H * W) 2\<rparr>)"
    by (simp add: nlcd_from_mrlc_def nlcd_remap_def Let_def)
  let ?r = "as_int \<lparr>shape = [H, W], flat = replicate (H * W) 2\<rparr>"
  have r: "shape ?r = [H, W]" "flat ?r = replicate (H * W) 2"
    by (simp_all add: as_int_def)
  have "colorize_landcover ?r = Inr \<lparr>shape = [H, W, 3], flat = concat (map rgb_of (flat ?r))\<rparr>"
    by (rule colorize_landcover_2d) (simp_all add: r COLOR_MAP_def)
  moreover have "rgb_of 2 = [0, 127, 0]"
    using rgb_of_table by simp
  ultimately show ?thesis using fetch by (simp add: r)
qed

theorem nlcd_then_colorize_forest_witness:
  "requests_get (env_serving \<lparr>shape = [1, 2], flat = [9, 9]\<rparr>) 0 NLCD_BASE_URL
     (nlcd_params (env_serving \<lparr>shape = [1, 2], flat = [9, 9]\<rparr>) [0, 0, 30, 30] 2 1
        ''NLCD_2016_Land_Cover_L48'' 5070 []) = Inr ''II*'' \<and>
   imread (env_serving \<lparr>shape = [1, 2], flat = [9, 9]\<rparr>) ''II*'' (Some ''tiff'') =
     Inr \<lparr>shape = [1, 2], flat = [9, 9]\<rparr> \<and>
   fst (nlcd_from_mrlc (env_serving \<lparr>shape = [1, 2], flat = [9, 9]\<rparr>) [0, 0, 30, 30] 2 1
          ''NLCD_2016_Land_Cover_L48'' 5070 []) =
     Inr (Some \<lparr>shape = [1, 2], flat = [2, 2]\<rparr>) \<and>
   colorize_landcover (as_int \<lparr>shape = [1, 2], flat = [2, 2]\<rparr>) =
     Inr \<lparr>shape = [1, 2, 3], flat = [0, 127, 0, 0, 127, 0]\<rparr>"
proof -
  let ?img = "\<lparr>shape = [1, 2], flat = [9, 9 :: int]\<rparr>"
  let ?env = "env_serving ?img"
  have g: "requests_get ?env 0 NLCD_BASE_URL
     (nlcd_params ?env [0, 0, 30, 30] 2 1 ''NLCD_2016_Land_Cover_L48'' 5070 []) = Inr ''II*''"
    by (simp add: env_serving_def)
  have d: "imread ?env ''II*'' (Some ''tiff'') = Inr ?img"
    by (simp add: env_serving_def)
  have s: "shape ?img = [1, 2]" by simp
  have f: "flat ?img = replicate (1 * 2) 9" by (simp add: numeral_2_eq_2)
  from nlcd_then_colorize_forest [OF g d s f] g d show ?thesis
    by (simp add: numeral_2_eq_2)
qed

section \<open>Properties of the colorizer on a store\<close>

lemma colorize_loop_st_frame:
  "colorize_loop_st covs a cc h = (h', r) \<Longrightarrow>
     length h' = length h \<and> (\<forall>b. b \<noteq> cc \<longrightarrow> h' ! b = h ! b)"
proof (induction covs arbitrary: h)
  case Nil
  then show ?case by simp
next
  case (Cons cov covs)
  show ?case
  proof (cases "\<exists>img cover_colors col mid.
      deref h a = Some (IntArr img) \<and> deref h cc = Some (FloatArr cover_colors) \<and>
      map_of COLOR_MAP cov = Some col \<and>
      setitem_mask cover_colors (np_eq img cov) col = Inr mid")
    case True
    then obtain img cover_colors col mid where
      "deref h a = Some (IntArr img)" "deref h cc = Some (FloatArr cover_colors)"
      "map_of COLOR_MAP cov = Some col"
      "setitem_mask cover_colors (np_eq img cov) col = Inr mid"
      by blast
    with Cons.prems have "colorize_loop_st covs a cc (h[cc := FloatArr mid]) = (h', r)"
      by (simp add: Let_def)
    from Cons.IH [OF this] show ?thesis by simp
  next
    case False
    with Cons.prems have "h' = h"
      by (auto simp: Let_def split: option.splits cell.splits sum.splits)
    then show ?thesis by simp
  qed
qed

lemma colorize_loop_st_refines:
  assumes "a \<noteq> cc"
  shows "deref h a = Some (IntArr img) \<Longrightarrow> deref h cc = Some (FloatArr c0) \<Longrightarrow>
     (case colorize_loop covs img c0 of
        Inl e \<Rightarrow> snd (colorize_loop_st covs a cc h) = Inl e
      | Inr c' \<Rightarrow> colorize_loop_st covs a cc h = (h[cc := FloatArr c'], Inr ()))"
proof (induction covs arbitrary: h c0)
  case Nil
  then have "h ! cc = FloatArr c0"
    by (simp add: deref_def split: if_splits)
  then have "h[cc := FloatArr c0] = h"
    by (metis list_update_id)
  with Nil show ?case by simp
next
  case (Cons cov covs)
  show ?case
  proof (cases "map_of COLOR_MAP cov")
    case None
    with Cons.prems show ?thesis by (simp add: Let_def)
  next
    case (Some col)
    show ?thesis
    proof (cases "setitem_mask c0 (np_eq img cov) col")
      case (Inl e)
      with Some Cons.prems show ?thesis by (simp add: Let_def)
    next
      case (Inr mid)
      let ?h = "h[cc := FloatArr mid]"
      from Cons.prems assms have a: "deref ?h a = Some (IntArr img)"
        and c: "deref ?h cc = Some (FloatArr mid)"
        by (auto simp: deref_def split: if_splits)
      from Cons.IH [OF a c] Some Inr Cons.prems show ?thesis
        by (simp add: Let_def split: sum.splits)
    qed
  qed
qed

text \<open>
  Claim C10. Run on a store in which address \<open>a\<close> holds the integer raster \<open>img\<close>,
  \<^verbatim>\<open>colorize_landcover\<close> leaves \<open>img\<close> at \<open>a\<close> and every other array of the store as it
  found them, whether it returns or raises: the store it leaves starts with the store it
  was given. An image it returns lies at an address that did not exist before, and it is
  the image the value-level function computes; an exception it raises is the one the
  value-level function raises.
\<close>

theorem colorize_landcover_st_frame:
  assumes "deref h a = Some (IntArr img)" and "colorize_landcover_st h a = (h', r)"
  shows "deref h' a = Some (IntArr img) \<and> take (length h) h' = h \<and>
         (\<forall>lc. r = Inr lc \<longrightarrow>
            length h \<le> lc \<and> lc < length h' \<and>
            (\<exists>out. colorize_landcover img = Inr out \<and> deref h' lc = Some (ByteArr out))) \<and>
         (\<forall>e. r = Inl e \<longrightarrow> colorize_landcover img = Inl e)"
proof (cases "length (shape img) < 2")
  case True
  with assms show ?thesis by (auto simp: colorize_landcover_st_def colorize_landcover_def)
next
  case False
  let ?cc = "length h"
  let ?z = "np_zeros [shape img ! 0, shape img ! 1, 3]"
  let ?h1 = "h @ [FloatArr ?z]"
  obtain h2 r2 where loop: "colorize_loop_st (np_unique img) a ?cc ?h1 = (h2, r2)"
    by (cases "colorize_loop_st (np_unique img) a ?cc ?h1") auto
  from assms(1) have a: "a < length h" "h ! a = IntArr img"
    by (auto simp: deref_def split: if_splits)
  then have ne: "a \<noteq> ?cc" by simp
  have d1: "deref ?h1 a = Some (IntArr img)" "deref ?h1 ?cc = Some (FloatArr ?z)"
    using a by (simp_all add: deref_def nth_append)
  from colorize_loop_st_frame [OF loop]
  have len2: "length h2 = Suc (length h)" and same2: "\<forall>b. b \<noteq> ?cc \<longrightarrow> h2 ! b = ?h1 ! b"
    by simp_all
  have pre2: "take (length h) h2 = h"
    using len2 same2 by (intro nth_equalityI) (simp_all add: nth_append)
  from assms(2) False assms(1) loop
  have out: "(h', r) =
      (case (r2, deref h2 ?cc) of
         (Inr u, Some (FloatArr cover_colors)) \<Rightarrow>
           (h2 @ [ByteArr (scale_to_uint8 cover_colors)], Inr (length h2))
       | (Inl e, _) \<Rightarrow> (h2, Inl e)
       | _ \<Rightarrow> (h2, Inl TypeError))"
    by (auto simp: colorize_landcover_st_def alloc_def Let_def
        split: sum.splits option.splits cell.splits)
  show ?thesis
  proof (cases "colorize_loop (np_unique img) img ?z")
    case (Inl e)
    with colorize_loop_st_refines [OF ne d1, of "np_unique img"] loop
    have "r2 = Inl e" by simp
    with out have "h' = h2" "r = Inl e" by simp_all
    moreover have "colorize_landcover img = Inl e"
      using False Inl by (simp add: colorize_landcover_def)
    ultimately show ?thesis using pre2 len2 a same2
      by (simp add: deref_def nth_append)
  next
    case (Inr c')
    with colorize_loop_st_refines [OF ne d1, of "np_unique img"] loop
    have h2: "h2 = ?h1[?cc := FloatArr c']" and "r2 = Inr ()" by simp_all
    then have "deref h2 ?cc = Some (FloatArr c')"
      by (simp add: deref_def)
    with out \<open>r2 = Inr ()\<close>
    have h': "h' = h2 @ [ByteArr (scale_to_uint8 c')]" and r: "r = Inr (length h2)"
      by simp_all
    have val: "colorize_landcover img = Inr (scale_to_uint8 c')"
      using False Inr by (simp add: colorize_landcover_def)
    from h' r val pre2 len2 a same2 show ?thesis
      by (simp add: deref_def nth_append)
  qed
qed

theorem colorize_landcover_st_frame_witness:
  "deref [IntArr \<lparr>shape = [1, 2], flat = [1, 255]\<rparr>] 0 =
     Some (IntArr \<lparr>shape = [1, 2], flat = [1, 255]\<rparr>) \<and>
   colorize_landcover_st [IntArr \<lparr>shape = [1, 2], flat = [1, 255]\<rparr>] 0 =
     ([IntArr \<lparr>shape = [1, 2], flat = [1, 255]\<rparr>,
       FloatArr \<lparr>shape = [1, 2, 3], flat = [0, 0, 1, 1, 0, 0]\<rparr>,
       ByteArr \<lparr>shape = [1, 2, 3], flat = [0, 0, 255, 255, 0, 0]\<rparr>], Inr 2) \<and>
   colorize_landcover \<lparr>shape = [1, 2], flat = [1, 255]\<rparr> =
     Inr \<lparr>shape = [1, 2, 3], flat = [0, 0, 255, 255, 0, 0]\<rparr>"
proof -
  let ?img = "\<lparr>shape = [1, 2], flat = [1, 255 :: int]\<rparr>"
  let ?h' = "[IntArr ?img,
       FloatArr \<lparr>shape = [1, 2, 3], flat = [0, 0, 1, 1, 0, 0]\<rparr>,
       ByteArr \<lparr>shape = [1, 2, 3], flat = [0, 0, 255, 255, 0, 0]\<rparr>]"
  have d: "deref [IntArr ?img] 0 = Some (IntArr ?img)"
    by (simp add: deref_def)
  have run: "colorize_landcover_st [IntArr ?img] 0 = (?h', Inr 2)"
    by code_simp
  from colorize_landcover_st_frame [OF d run]
  obtain out where "colorize_landcover ?img = Inr out" and "deref ?h' 2 = Some (ByteArr out)"
    by blast
  then have "colorize_landcover ?img = Inr \<lparr>shape = [1, 2, 3], flat = [0, 0, 255, 255, 0, 0]\<rparr>"
    by (simp add: deref_def)
  with d run show ?thesis by simp
qed

end
